theory Spec2Isabelle
  imports Complex_Main "HOL-Library.Multiset"
begin

section \<open>Data model of the combat encounter\<close>

text \<open>
  JavaScript numbers that hold coordinates are idealised as reals; hit points and damage
  values are integers. Object references are modelled by value; an entity is identified
  by its \<open>_uid\<close>, as the source's own comparisons do.
\<close>

type_synonym Point = "real \<times> real"

text \<open>The run-time class of a scene object, as far as \<open>instanceof\<close> tests observe it.\<close>

datatype EntityClass = CombatPlayerComponent | CombatEnemyComponent | PlainEntity

record EntityModel =
  name :: string
  hp :: int

record GameEntityObject =
  uid :: string
  model :: EntityModel
  point :: Point
  cls :: EntityClass

record CombatActionBehavior =
  action_from :: GameEntityObject
  actionName :: string

type_synonym Scene = nat

text \<open>
  \<open>CombatStateMachineComponent\<close>: the fields the choose-action state reads and writes.
  \<open>party\<close> and \<open>enemies\<close> are the roster behind \<open>getLiveParty\<close> and
  \<open>getLiveEnemies\<close>; \<open>currentState\<close> is the name last passed to \<open>setCurrentState\<close>.
\<close>

record CombatStateMachineComponent =
  scene :: "Scene option"
  party :: "GameEntityObject list"
  enemies :: "GameEntityObject list"
  turnList :: "GameEntityObject list"
  current :: "GameEntityObject option"
  currentDone :: bool
  playerChoices :: "string \<rightharpoonup> CombatActionBehavior"
  currentState :: string

text \<open>
  \<open>ChooseActionStateMachine\<close>: the sub-machine built by \<open>enter\<close>. Its \<open>data\<close> is the
  \<open>IChooseActionEvent\<close> (players, enemies; the \<open>choose\<close> callback is the function
  \<open>choose_action\<close> below).
\<close>

record ChooseActionStateMachine =
  sm_scene :: Scene
  sm_players :: "GameEntityObject list"
  sm_enemies :: "GameEntityObject list"
  sm_current :: "GameEntityObject option"
  sm_target :: "GameEntityObject option"
  sm_state :: "string option"

text \<open>\<open>CombatChooseActionStateComponent\<close>; \<open>pointerClasses\<close> is the class list of the pointer element.\<close>

record CombatChooseActionStateComponent =
  pending :: "GameEntityObject list"
  machineBound :: bool
  pointerOffset :: Point
  pointAt :: "GameEntityObject option"
  pointOffset :: Point
  pointerClasses :: "string list"
  currentMachine :: "ChooseActionStateMachine option"

text \<open>
  Everything the closures of \<open>enter\<close> can reach: the parent machine, the component
  (\<open>this\<close>), the local array \<open>choices\<close> and the console.
\<close>

record world =
  combat_machine :: CombatStateMachineComponent
  component :: CombatChooseActionStateComponent
  choices :: "GameEntityObject list"
  console :: "string list"

datatype error = InvalidCombatScene | TypeError

datatype ItemSource =
  EntitySource GameEntityObject
  | ActionSource CombatActionBehavior
  | TemplateSource string

record ICombatMenuItem =
  label :: string
  source :: ItemSource

section \<open>Collaborators of the choose-action state\<close>

text \<open>
  Modelled from the spec: \<open>getLiveParty\<close>, \<open>getLiveEnemies\<close> and \<open>setCurrentState\<close> are
  methods of the combat state machine, whose file is not among the sources. The spec
  derives liveness from hit points greater than zero, and a transition is recorded as the
  new state's name.
\<close>

definition isAlive :: "GameEntityObject \<Rightarrow> bool" where
  "isAlive e = (0 < hp (model e))"

definition getLiveParty :: "CombatStateMachineComponent \<Rightarrow> GameEntityObject list" where
  "getLiveParty m = filter isAlive (party m)"

definition getLiveEnemies :: "CombatStateMachineComponent \<Rightarrow> GameEntityObject list" where
  "getLiveEnemies m = filter isAlive (enemies m)"

definition setCurrentState ::
  "string \<Rightarrow> CombatStateMachineComponent \<Rightarrow> CombatStateMachineComponent" where
  "setCurrentState s m = m\<lparr>currentState := s\<rparr>"

text \<open>\<open>Array.prototype.shift\<close>: the first element (or undefined) and the rest.\<close>

definition shift :: "'a list \<Rightarrow> 'a option \<times> 'a list" where
  "shift xs = (case xs of [] \<Rightarrow> (None, []) | x # rest \<Rightarrow> (Some x, rest))"

text \<open>\<open>Renderer2.addClass\<close> and \<open>removeClass\<close> on an element's class list.\<close>

definition addClass :: "string \<Rightarrow> string list \<Rightarrow> string list" where
  "addClass c cs = (if c \<in> set cs then cs else cs @ [c])"

definition removeClass :: "string \<Rightarrow> string list \<Rightarrow> string list" where
  "removeClass c cs = filter (\<lambda>x. x \<noteq> c) cs"

section \<open>The choose-action state\<close>

text \<open>
  The submission callback \<open>chooseData.choose\<close> (the name \<open>choose\<close> is binomial
  syntax in HOL): store the action under its actor's uid, drop that uid from
  \<open>pending\<close>, log, and request \<open>begin-turn\<close> when nothing is pending.
\<close>

definition choose_action :: "CombatActionBehavior \<Rightarrow> world \<Rightarrow> world" where
  "choose_action action w =
    (let machine = combat_machine w;
         machine1 = machine\<lparr>playerChoices :=
                      (playerChoices machine)(uid (action_from action) \<mapsto> action)\<rparr>;
         pend = filter (\<lambda>p. uid (action_from action) \<noteq> uid p) (pending (component w));
         line = name (model (action_from action)) @ '' chose '' @ actionName action;
         machine2 = (if length pend = 0 then setCurrentState ''begin-turn'' machine1
                     else machine1)
     in w\<lparr>combat_machine := machine2,
          component := (component w)\<lparr>pending := pend\<rparr>,
          console := console w @ [line]\<rparr>)"

text \<open>
  The closure \<open>next\<close>: pop \<open>choices\<close>; with nothing left the sub-machine reference is
  dropped, otherwise the popped combatant becomes the sub-machine's current one. Writing
  to a dropped sub-machine is a TypeError.
\<close>

definition nextChoice :: "world \<Rightarrow> error + world" where
  "nextChoice w =
    (case shift (choices w) of
       (None, rest) \<Rightarrow>
         Inr (w\<lparr>choices := rest, component := (component w)\<lparr>currentMachine := None\<rparr>\<rparr>)
     | (Some p, rest) \<Rightarrow>
         (case currentMachine (component w) of
            None \<Rightarrow> Inl TypeError
          | Some cm \<Rightarrow>
              Inr (w\<lparr>choices := rest,
                     component := (component w)\<lparr>currentMachine :=
                       Some (cm\<lparr>sm_current := Some p, sm_state := Some ''choose-action''\<rparr>)\<rparr>\<rparr>)))"

definition chooseSubmit :: "CombatActionBehavior \<Rightarrow> world \<Rightarrow> error + world" where
  "chooseSubmit action w =
    (case currentMachine (component w) of
       None \<Rightarrow> Inl TypeError
     | Some cm \<Rightarrow> nextChoice (choose_action action w))"

text \<open>
  \<open>enter\<close>, with the library's \<open>_.shuffle\<close> as a parameter. The base class's \<open>enter\<close>
  is taken to do nothing.
\<close>

definition enter ::
  "(GameEntityObject list \<Rightarrow> GameEntityObject list) \<Rightarrow> world \<Rightarrow> error + world" where
  "enter shuffle w =
    (let machine = combat_machine w in
     case scene machine of
       None \<Rightarrow> Inl InvalidCombatScene
     | Some sc \<Rightarrow>
         (let combatants = getLiveParty machine @ getLiveEnemies machine;
              shuffled = shift (shuffle combatants);
              machine1 = machine\<lparr>turnList := snd shuffled, current := fst shuffled,
                                 currentDone := True\<rparr>;
              pend = getLiveParty machine1;
              machine2 = machine1\<lparr>playerChoices := Map.empty\<rparr>;
              sub = \<lparr>sm_scene = sc, sm_players = pend, sm_enemies = getLiveEnemies machine2,
                     sm_current = None, sm_target = None, sm_state = None\<rparr>
          in nextChoice
               (w\<lparr>combat_machine := machine2,
                  component := (component w)\<lparr>pending := pend, machineBound := True,
                                              currentMachine := Some sub\<rparr>,
                  choices := pend\<rparr>)))"

text \<open>\<open>exit\<close> drops the component's reference to the machine.\<close>

definition exit_state :: "world \<Rightarrow> world" where
  "exit_state w = w\<lparr>component := (component w)\<lparr>machineBound := False\<rparr>\<rparr>"

text \<open>
  \<open>setPointerTarget\<close> and \<open>pointAtItem\<close>. Only an item whose source is an entity
  (\<open>instanceof GameEntityObject\<close>) is pointed at; with the sub-machine dropped the last
  assignment is a TypeError.
\<close>

definition setPointerTarget ::
  "GameEntityObject \<Rightarrow> string \<Rightarrow> CombatChooseActionStateComponent
     \<Rightarrow> CombatChooseActionStateComponent" where
  "setPointerTarget object directionClass c =
     c\<lparr>pointerClasses :=
         addClass directionClass (removeClass ''right'' (removeClass ''left'' (pointerClasses c))),
       pointAt := Some object,
       pointOffset := pointerOffset c\<rparr>"

definition pointAtItem :: "ICombatMenuItem \<Rightarrow> world \<Rightarrow> error + world" where
  "pointAtItem item w =
    (case source item of
       EntitySource e \<Rightarrow>
         (let c = setPointerTarget e ''left'' ((component w)\<lparr>pointAt := Some e\<rparr>) in
          case currentMachine c of
            None \<Rightarrow> Inl TypeError
          | Some cm \<Rightarrow>
              Inr (w\<lparr>component := c\<lparr>currentMachine := Some (cm\<lparr>sm_target := Some e\<rparr>)\<rparr>\<rparr>))
     | _ \<Rightarrow> Inr w)"

section \<open>An example encounter\<close>

definition Warrior :: GameEntityObject where
  "Warrior = \<lparr>uid = ''p1'', model = \<lparr>name = ''Warrior'', hp = 20\<rparr>, point = (1, 4),
               cls = CombatPlayerComponent\<rparr>"

definition Mage :: GameEntityObject where
  "Mage = \<lparr>uid = ''p2'', model = \<lparr>name = ''Mage'', hp = 12\<rparr>, point = (1, 6),
            cls = CombatPlayerComponent\<rparr>"

definition Thief :: GameEntityObject where
  "Thief = \<lparr>uid = ''p3'', model = \<lparr>name = ''Thief'', hp = 0\<rparr>, point = (1, 8),
             cls = CombatPlayerComponent\<rparr>"

definition Goblin :: GameEntityObject where
  "Goblin = \<lparr>uid = ''e1'', model = \<lparr>name = ''Goblin'', hp = 5\<rparr>, point = (9, 5),
              cls = CombatEnemyComponent\<rparr>"

definition attack :: "GameEntityObject \<Rightarrow> CombatActionBehavior" where
  "attack e = \<lparr>action_from = e, actionName = ''attack''\<rparr>"

definition guard :: "GameEntityObject \<Rightarrow> CombatActionBehavior" where
  "guard e = \<lparr>action_from = e, actionName = ''guard''\<rparr>"

text \<open>The encounter before the first round: nothing chosen, no sub-machine yet.\<close>

definition arena :: world where
  "arena =
    \<lparr>combat_machine =
       \<lparr>scene = Some 0, party = [Warrior, Mage, Thief], enemies = [Goblin], turnList = [],
        current = None, currentDone = False, playerChoices = Map.empty,
        currentState = ''choose-action''\<rparr>,
     component =
       \<lparr>pending = [], machineBound = False, pointerOffset = (0, 0), pointAt = None,
        pointOffset = (4, 2), pointerClasses = [''point-to-player'', ''right''],
        currentMachine = None\<rparr>,
     choices = [], console = []\<rparr>"

text \<open>The same encounter once \<open>enter\<close> has run with a shuffle that reverses the list.\<close>

definition arena_entered :: world where
  "arena_entered =
    \<lparr>combat_machine =
       \<lparr>scene = Some 0, party = [Warrior, Mage, Thief], enemies = [Goblin],
        turnList = [Mage, Warrior], current = Some Goblin, currentDone = True,
        playerChoices = Map.empty, currentState = ''choose-action''\<rparr>,
     component =
       \<lparr>pending = [Warrior, Mage], machineBound = True, pointerOffset = (0, 0),
        pointAt = None, pointOffset = (4, 2),
        pointerClasses = [''point-to-player'', ''right''],
        currentMachine =
          Some \<lparr>sm_scene = 0, sm_players = [Warrior, Mage], sm_enemies = [Goblin],
                sm_current = Some Warrior, sm_target = None,
                sm_state = Some ''choose-action''\<rparr>\<rparr>,
     choices = [Mage], console = []\<rparr>"

text \<open>The acting combatant popped by \<open>enter\<close>, followed by the rest of the turn list.\<close>

definition turn_sequence :: "CombatStateMachineComponent \<Rightarrow> GameEntityObject list" where
  "turn_sequence m = (case current m of None \<Rightarrow> [] | Some c \<Rightarrow> [c]) @ turnList m"

text \<open>A run of submissions through the callback, and through the sub-machine's relay.\<close>

fun submissions :: "CombatActionBehavior list \<Rightarrow> world \<Rightarrow> world" where
  "submissions [] w = w"
| "submissions (a # as) w = submissions as (choose_action a w)"

fun submitAll :: "CombatActionBehavior list \<Rightarrow> world \<Rightarrow> error + world" where
  "submitAll [] w = Inr w"
| "submitAll (a # as) w =
     (case chooseSubmit a w of Inl e \<Rightarrow> Inl e | Inr w' \<Rightarrow> submitAll as w')"

text \<open>
  The phase and the pending list agree: either the machine has been sent to
  \<open>begin-turn\<close> and nothing is pending, or it is still choosing and someone is.
\<close>

definition phase_consistent :: "world \<Rightarrow> bool" where
  "phase_consistent w =
     ((currentState (combat_machine w) = ''begin-turn'' \<and> pending (component w) = []) \<or>
      (currentState (combat_machine w) = ''choose-action'' \<and> pending (component w) \<noteq> []))"

text \<open>
  The sub-machine serves the pending list: the combatant it presents, followed by the
  queue \<open>choices\<close>, is the pending list; a dropped sub-machine has neither.
\<close>

definition queue_tracks_pending :: "world \<Rightarrow> bool" where
  "queue_tracks_pending w =
     (case currentMachine (component w) of
        None \<Rightarrow> choices w = [] \<and> pending (component w) = []
      | Some cm \<Rightarrow>
          (case sm_current cm of
             None \<Rightarrow> False
           | Some p \<Rightarrow> pending (component w) = p # choices w))"

definition pointAtGoblin :: ICombatMenuItem where
  "pointAtGoblin = \<lparr>label = ''Goblin'', source = EntitySource Goblin\<rparr>"

definition attackItem :: ICombatMenuItem where
  "attackItem = \<lparr>label = ''Attack'', source = ActionSource (attack Warrior)\<rparr>"

section \<open>The combat view and its event handlers\<close>

record DamageClasses =
  miss :: bool
  heal :: bool

record DamageRecord =
  timeout :: int
  damage_value :: int
  classes :: DamageClasses
  position :: Point

record CombatAttackSummary =
  damage :: int
  attacker :: GameEntityObject
  defender :: GameEntityObject

record CombatRunSummary =
  player :: GameEntityObject
  success :: bool

datatype CombatEvent =
  CombatAttack CombatAttackSummary
  | CombatRun CombatRunSummary
  | CombatDefeat

text \<open>
  The two closures handed to the notification service: the completion token itself, and
  \<open>() => { this.game.initGame().then(done) }\<close>.
\<close>

datatype DoneCallback = Resume nat | InitGameThen nat

record Notification =
  message :: string
  on_done :: DoneCallback
  duration :: "nat option"

text \<open>
  Modelled from the spec: the synchronization gate behind \<open>machine.notifyWait\<close> lives in
  the combat state machine, whose file is not among the sources. By section 4.4 of the
  spec, \<open>wait()\<close> hands out a single-use completion token, and the machine does not
  proceed while a token it handed out has not been invoked. Tokens are numbered in the
  order they are handed out; invoking a token that is not outstanding does nothing.
\<close>

record WaitGate =
  issued :: nat
  outstanding :: "nat list"

definition notifyWait :: "WaitGate \<Rightarrow> nat \<times> WaitGate" where
  "notifyWait g = (issued g, g\<lparr>issued := issued g + 1, outstanding := outstanding g @ [issued g]\<rparr>)"

definition invokeToken :: "nat \<Rightarrow> WaitGate \<Rightarrow> WaitGate" where
  "invokeToken t g = g\<lparr>outstanding := removeAll t (outstanding g)\<rparr>"

definition mayProceed :: "WaitGate \<Rightarrow> bool" where
  "mayProceed g = (outstanding g = [])"

text \<open>
  \<open>CombatComponent\<close>: camera and canvas geometry, the damage records on screen, the
  shakes started (element and duration), the notifications shown and not yet dismissed,
  the machine's gate, and the calls of \<open>game.initGame\<close> with the tokens chained to
  their promises.
\<close>

record CombatComponent =
  camera_point :: Point
  cameraScale :: real
  canvasOffset :: Point
  damages :: "DamageRecord list"
  shaking :: "(string \<times> real) list"
  notifications :: "Notification list"
  gate :: WaitGate
  initGameCalls :: nat
  initGameWaiting :: "nat list"

text \<open>Decimal rendering of an integer, as a template literal renders an integral number.\<close>

fun showNat :: "nat \<Rightarrow> string" where
  "showNat n =
     (if n < 10 then [''0123456789'' ! n]
      else showNat (n div 10) @ [''0123456789'' ! (n mod 10)])"

declare showNat.simps [simp del]

definition showInt :: "int \<Rightarrow> string" where
  "showInt i = (if i < 0 then ''-'' @ showNat (nat (- i)) else showNat (nat i))"

text \<open>
  \<open>applyDamage\<close>; the view's \<open>worldToScreen\<close> and the clock are parameters.
\<close>

definition applyDamage ::
  "(Point \<Rightarrow> real \<Rightarrow> Point) \<Rightarrow> int \<Rightarrow> GameEntityObject \<Rightarrow> int \<Rightarrow> CombatComponent
     \<Rightarrow> CombatComponent" where
  "applyDamage worldToScreen now target v c =
    (let targetPos = (fst (point target) - fst (camera_point c),
                      snd (point target) - (snd (camera_point c) + 1.25));
         screenPos = worldToScreen targetPos (cameraScale c);
         placed = (fst screenPos + fst (canvasOffset c), snd screenPos + snd (canvasOffset c))
     in c\<lparr>damages := damages c @
            [\<lparr>timeout = now + 5 * 1000,
              damage_value = abs v,
              classes = \<lparr>miss = (v = 0), heal = (v < 0)\<rparr>,
              position = placed\<rparr>]\<rparr>)"

text \<open>\<open>shake\<close> starts the shake animation on an element for a duration (0.3 by default).\<close>

definition shake :: "string \<Rightarrow> real \<Rightarrow> CombatComponent \<Rightarrow> CombatComponent" where
  "shake el dur c = c\<lparr>shaking := shaking c @ [(el, dur)]\<rparr>"

text \<open>
  Modelled from the spec: \<open>NotificationService.show\<close> is not among the sources. It
  presents a message; the callback it is given runs when the player acknowledges
  (dismisses) the message.
\<close>

definition notify_show ::
  "string \<Rightarrow> DoneCallback \<Rightarrow> nat option \<Rightarrow> CombatComponent \<Rightarrow> CombatComponent" where
  "notify_show msg cb dur c =
     c\<lparr>notifications := notifications c @ [\<lparr>message = msg, on_done = cb, duration = dur\<rparr>]\<rparr>"

text \<open>The narration of the \<open>combat:attack\<close> handler.\<close>

definition attackMessage :: "CombatAttackSummary \<Rightarrow> string" where
  "attackMessage data =
    (let a = name (model (attacker data));
         b = name (model (defender data))
     in if damage data > 0 then
          a @ '' attacked '' @ b @ '' for '' @ showInt (damage data) @ '' damage!''
        else if damage data < 0 then
          a @ '' healed '' @ b @ '' for '' @ showInt (abs (damage data)) @ '' hit points''
        else a @ '' attacked '' @ b @ '', and MISSED!'')"

text \<open>The three handlers bound by \<open>_bindRenderCombat\<close>.\<close>

definition onCombatAttack ::
  "(Point \<Rightarrow> real \<Rightarrow> Point) \<Rightarrow> int \<Rightarrow> CombatAttackSummary \<Rightarrow> CombatComponent
     \<Rightarrow> CombatComponent" where
  "onCombatAttack worldToScreen now data c =
    (let w = notifyWait (gate c);
         c1 = c\<lparr>gate := snd w\<rparr>;
         msg = attackMessage data;
         c2 = applyDamage worldToScreen now (defender data) (damage data) c1;
         c3 = (if damage data > 0 \<and> cls (defender data) = CombatPlayerComponent
               then shake ''combatCanvas'' 0.3 c2 else c2)
     in notify_show msg (Resume (fst w)) None c3)"

definition onCombatRun :: "CombatRunSummary \<Rightarrow> CombatComponent \<Rightarrow> CombatComponent" where
  "onCombatRun data c =
    (let w = notifyWait (gate c);
         c1 = c\<lparr>gate := snd w\<rparr>;
         msg = name (model (player data)) @
                 (if success data then '' bravely ran away!'' else '' failed to escape!'')
     in notify_show msg (Resume (fst w)) None c1)"

definition onCombatDefeat :: "CombatComponent \<Rightarrow> CombatComponent" where
  "onCombatDefeat c =
    (let w = notifyWait (gate c);
         c1 = c\<lparr>gate := snd w\<rparr>
     in notify_show ''Your party was defeated...'' (InitGameThen (fst w)) (Some 0) c1)"

definition renderCombatEvent ::
  "(Point \<Rightarrow> real \<Rightarrow> Point) \<Rightarrow> int \<Rightarrow> CombatEvent \<Rightarrow> CombatComponent \<Rightarrow> CombatComponent" where
  "renderCombatEvent worldToScreen now ev c =
    (case ev of
       CombatAttack data \<Rightarrow> onCombatAttack worldToScreen now data c
     | CombatRun data \<Rightarrow> onCombatRun data c
     | CombatDefeat \<Rightarrow> onCombatDefeat c)"

text \<open>
  The callbacks handed to the notification service, run: the token itself, or a call of
  \<open>game.initGame\<close> with the token chained to its promise by \<open>then\<close>.
\<close>

definition runCallback :: "DoneCallback \<Rightarrow> CombatComponent \<Rightarrow> CombatComponent" where
  "runCallback cb c =
    (case cb of
       Resume t \<Rightarrow> c\<lparr>gate := invokeToken t (gate c)\<rparr>
     | InitGameThen t \<Rightarrow>
         c\<lparr>initGameCalls := initGameCalls c + 1, initGameWaiting := initGameWaiting c @ [t]\<rparr>)"

text \<open>
  Modelled from the spec: acknowledgement of a message belongs to the notification
  service, and fulfilment of \<open>initGame\<close>'s promise to the game service; neither is
  among the sources. Acknowledging the oldest message runs its callback; when the
  oldest pending reinitialization is fulfilled, the token chained to it runs.
\<close>

definition acknowledge :: "CombatComponent \<Rightarrow> CombatComponent" where
  "acknowledge c =
    (case notifications c of
       [] \<Rightarrow> c
     | n # rest \<Rightarrow> runCallback (on_done n) (c\<lparr>notifications := rest\<rparr>))"

definition initGameFulfilled :: "CombatComponent \<Rightarrow> CombatComponent" where
  "initGameFulfilled c =
    (case initGameWaiting c of
       [] \<Rightarrow> c
     | t # rest \<Rightarrow> c\<lparr>initGameWaiting := rest, gate := invokeToken t (gate c)\<rparr>)"

text \<open>An example view: nothing on screen, no token outstanding.\<close>

definition idleView :: CombatComponent where
  "idleView =
    \<lparr>camera_point = (0, 0), cameraScale = 1, canvasOffset = (8, 8), damages = [],
     shaking = [], notifications = [], gate = \<lparr>issued = 0, outstanding = []\<rparr>,
     initGameCalls = 0, initGameWaiting = []\<rparr>"

definition tileToScreen :: "Point \<Rightarrow> real \<Rightarrow> Point" where
  "tileToScreen p scale = (fst p * 16 * scale, snd p * 16 * scale)"

text \<open>Example events.\<close>

definition goblinHitsWarrior :: CombatAttackSummary where
  "goblinHitsWarrior = \<lparr>damage = 3, attacker = Goblin, defender = Warrior\<rparr>"

definition mageHealsWarrior :: CombatAttackSummary where
  "mageHealsWarrior = \<lparr>damage = - 12, attacker = Mage, defender = Warrior\<rparr>"

definition warriorHitsGoblin :: CombatAttackSummary where
  "warriorHitsGoblin = \<lparr>damage = 5, attacker = Warrior, defender = Goblin\<rparr>"

definition warriorFlees :: CombatRunSummary where
  "warriorFlees = \<lparr>player = Warrior, success = False\<rparr>"

section \<open>Properties of the choose-action state\<close>

lemmas ex_defs = Warrior_def Mage_def Thief_def Goblin_def attack_def guard_def arena_def arena_entered_def
lemmas op_defs = enter_def nextChoice_def choose_action_def chooseSubmit_def shift_def getLiveParty_def getLiveEnemies_def isAlive_def setCurrentState_def

lemma enter_arena: "enter rev arena = Inr arena_entered"
  by (simp add: ex_defs op_defs Let_def)

lemma shift_sequence: "(case fst (shift xs) of None \<Rightarrow> [] | Some c \<Rightarrow> [c]) @ snd (shift xs) = xs"
  by (cases xs) (simp_all add: shift_def)

lemma enter_machine:
  assumes "enter shuffle w = Inr w'"
  shows "combat_machine w' =
    (combat_machine w)\<lparr>turnList := snd (shift (shuffle (getLiveParty (combat_machine w) @ getLiveEnemies (combat_machine w)))),
      current := fst (shift (shuffle (getLiveParty (combat_machine w) @ getLiveEnemies (combat_machine w)))),
      currentDone := True, playerChoices := Map.empty\<rparr>"
  using assms
  by (auto simp: enter_def nextChoice_def Let_def shift_def getLiveParty_def split: option.splits list.splits)

lemma enter_succeeds:
  assumes "scene (combat_machine w) = Some sc"
  shows "\<exists>w'. enter shuffle w = Inr w'"
  using assms
  by (auto simp: enter_def nextChoice_def Let_def shift_def getLiveParty_def split: option.splits list.splits)

lemma count_list_distinct: "distinct xs \<Longrightarrow> count_list xs e = (if e \<in> set xs then 1 else 0)"
  by (induction xs) auto

text \<open>
  C2. On entry to the choose-action state (a scene is bound, and the library shuffle
  returns a permutation of its argument), the current acting combatant followed by the
  remaining turn list is the shuffled list of the living party members and living
  enemies: a permutation of exactly the combatants alive at round start. With a roster
  free of duplicates, each living combatant occurs exactly once and every other entity
  not at all. The dead are filtered out before the shuffle is applied.
\<close>

theorem enter_turn_order_is_permutation:
  assumes sc: "scene (combat_machine w) = Some sc"
    and perm: "mset (shuffle (getLiveParty (combat_machine w) @ getLiveEnemies (combat_machine w)))
                 = mset (getLiveParty (combat_machine w) @ getLiveEnemies (combat_machine w))"
  shows "\<exists>w'. enter shuffle w = Inr w' \<and>
     turn_sequence (combat_machine w')
       = shuffle (getLiveParty (combat_machine w) @ getLiveEnemies (combat_machine w)) \<and>
     mset (turn_sequence (combat_machine w'))
       = mset (filter isAlive (party (combat_machine w) @ enemies (combat_machine w))) \<and>
     (distinct (party (combat_machine w) @ enemies (combat_machine w)) \<longrightarrow>
        (\<forall>e. count_list (turn_sequence (combat_machine w')) e
           = (if e \<in> set (party (combat_machine w) @ enemies (combat_machine w)) \<and> isAlive e
              then 1 else 0)))"
proof -
  let ?live = "getLiveParty (combat_machine w) @ getLiveEnemies (combat_machine w)"
  from enter_succeeds [OF sc] obtain w' where w': "enter shuffle w = Inr w'" by blast
  have seq: "turn_sequence (combat_machine w') = shuffle ?live"
    by (simp add: enter_machine [OF w'] turn_sequence_def shift_sequence)
  have live: "?live = filter isAlive (party (combat_machine w) @ enemies (combat_machine w))"
    by (simp add: getLiveParty_def getLiveEnemies_def)
  have ms: "mset (turn_sequence (combat_machine w')) = mset (filter isAlive (party (combat_machine w) @ enemies (combat_machine w)))"
    using seq perm live by simp
  have cnt: "count_list (turn_sequence (combat_machine w')) e
           = (if e \<in> set (party (combat_machine w) @ enemies (combat_machine w)) \<and> isAlive e
              then 1 else 0)"
    if d: "distinct (party (combat_machine w) @ enemies (combat_machine w))" for e
  proof -
    have "distinct (filter isAlive (party (combat_machine w) @ enemies (combat_machine w)))"
      using d by (rule distinct_filter)
    then have "distinct (turn_sequence (combat_machine w'))"
      using ms by (metis mset_eq_imp_distinct_iff)
    moreover have "set (turn_sequence (combat_machine w')) = set (filter isAlive (party (combat_machine w) @ enemies (combat_machine w)))"
      using ms by (metis set_mset_mset)
    ultimately show ?thesis
      by (simp add: count_list_distinct)
  qed
  show ?thesis using w' seq ms cnt by blast
qed

theorem enter_turn_order_witness:
  "enter rev arena = Inr arena_entered \<and>
   turn_sequence (combat_machine arena_entered) = [Goblin, Mage, Warrior] \<and>
   count_list (turn_sequence (combat_machine arena_entered)) Mage = 1 \<and>
   count_list (turn_sequence (combat_machine arena_entered)) Thief = 0"
proof -
  have e: "enter rev arena = Inr arena_entered"
    by (rule enter_arena)
  have sc: "scene (combat_machine arena) = Some 0"
    by (simp add: arena_def)
  have perm: "mset (rev (getLiveParty (combat_machine arena) @ getLiveEnemies (combat_machine arena)))
                 = mset (getLiveParty (combat_machine arena) @ getLiveEnemies (combat_machine arena))"
    by simp
  have d: "distinct (party (combat_machine arena) @ enemies (combat_machine arena))"
    by (simp add: ex_defs)
  from enter_turn_order_is_permutation [of arena 0 rev, OF sc perm]
  obtain w' where w': "enter rev arena = Inr w'"
    and c: "distinct (party (combat_machine arena) @ enemies (combat_machine arena)) \<longrightarrow>
        (\<forall>e. count_list (turn_sequence (combat_machine w')) e
           = (if e \<in> set (party (combat_machine arena) @ enemies (combat_machine arena)) \<and> isAlive e
              then 1 else 0))"
    by blast
  from w' e have "w' = arena_entered" by simp
  with c d
  have "\<forall>e. count_list (turn_sequence (combat_machine arena_entered)) e
           = (if e \<in> set (party (combat_machine arena) @ enemies (combat_machine arena)) \<and> isAlive e
              then 1 else 0)"
    by blast
  then have "count_list (turn_sequence (combat_machine arena_entered)) Mage = 1"
    and "count_list (turn_sequence (combat_machine arena_entered)) Thief = 0"
    by (simp_all add: ex_defs isAlive_def)
  moreover have "turn_sequence (combat_machine arena_entered) = [Goblin, Mage, Warrior]"
    by (simp add: turn_sequence_def arena_entered_def)
  ultimately show ?thesis using e by simp
qed

lemma choose_action_state:
  "currentState (combat_machine (choose_action a w)) =
     (if pending (component (choose_action a w)) = [] then ''begin-turn''
      else currentState (combat_machine w))"
  by (simp add: choose_action_def Let_def setCurrentState_def)

lemma choose_action_pending:
  "pending (component (choose_action a w)) =
     filter (\<lambda>p. uid (action_from a) \<noteq> uid p) (pending (component w))"
  by (simp add: choose_action_def Let_def)

lemma choose_action_choices:
  "playerChoices (combat_machine (choose_action a w)) =
     (playerChoices (combat_machine w))(uid (action_from a) \<mapsto> a)"
  by (simp add: choose_action_def Let_def setCurrentState_def)

lemma choose_action_turns:
  "turnList (combat_machine (choose_action a w)) = turnList (combat_machine w) \<and>
   current (combat_machine (choose_action a w)) = current (combat_machine w) \<and>
   currentDone (combat_machine (choose_action a w)) = currentDone (combat_machine w)"
  by (simp add: choose_action_def Let_def setCurrentState_def)

lemma choose_action_consistent:
  "currentState (combat_machine w) = ''choose-action'' \<or> phase_consistent w
     \<Longrightarrow> phase_consistent (choose_action a w)"
  unfolding phase_consistent_def
  by (auto simp: choose_action_state choose_action_pending)

lemma submissions_consistent:
  "phase_consistent w \<Longrightarrow> phase_consistent (submissions as w)"
  by (induction as arbitrary: w) (simp_all add: choose_action_consistent)

text \<open>
  C3. While the machine is in the choose-action state, a submission (and any run of
  submissions) leaves the machine in \<open>begin-turn\<close> if and only if nothing is
  pending afterwards; and the submission of the last pending combatant's action sets
  \<open>begin-turn\<close> within that same call.
\<close>

theorem begin_turn_iff_pending_empty:
  assumes st: "currentState (combat_machine w) = ''choose-action''"
  shows "(currentState (combat_machine (choose_action a w)) = ''begin-turn'')
           = (pending (component (choose_action a w)) = []) \<and>
         (currentState (combat_machine (submissions (a # as) w)) = ''begin-turn'')
           = (pending (component (submissions (a # as) w)) = []) \<and>
         (pending (component w) = [p] \<and> uid (action_from a) = uid p \<longrightarrow>
            currentState (combat_machine (choose_action a w)) = ''begin-turn'')"
proof -
  have one: "phase_consistent (choose_action a w)"
    using st by (simp add: choose_action_consistent)
  then have many: "phase_consistent (submissions (a # as) w)"
    by (simp add: submissions_consistent)
  have iff: "(currentState (combat_machine v) = ''begin-turn'') = (pending (component v) = [])"
    if "phase_consistent v" for v
    using that unfolding phase_consistent_def by auto
  have last: "currentState (combat_machine (choose_action a w)) = ''begin-turn''"
    if "pending (component w) = [p] \<and> uid (action_from a) = uid p"
    using that by (simp add: choose_action_state choose_action_pending)
  from iff [OF one] iff [OF many] last show ?thesis
    by blast
qed

text \<open>
  Warrior's submission leaves Mage pending and the state unchanged; Mage's submission,
  the last one, sets \<open>begin-turn\<close>.
\<close>

theorem begin_turn_witness:
  "currentState (combat_machine (choose_action (attack Warrior) arena_entered)) = ''choose-action'' \<and>
   pending (component (choose_action (attack Warrior) arena_entered)) = [Mage] \<and>
   currentState (combat_machine (submissions [attack Warrior, attack Mage] arena_entered))
      = ''begin-turn'' \<and>
   pending (component (submissions [attack Warrior, attack Mage] arena_entered)) = []"
proof -
  have h: "currentState (combat_machine arena_entered) = ''choose-action''"
    by (simp add: arena_entered_def)
  show ?thesis
    using begin_turn_iff_pending_empty [OF h, of "attack Warrior" "[attack Mage]" Warrior]
    by (simp add: choose_action_pending choose_action_state ex_defs)
qed

text \<open>
  C1, as the code has it. A submission whose actor is not pending (a second submission
  included) is not rejected: the callback returns normally, leaves the pending list and
  the turn order as they were, stores the action under the actor's uid in the choice
  map (replacing an earlier choice), and requests \<open>begin-turn\<close> again when nothing
  was pending.
\<close>

theorem choose_not_pending_accepted:
  assumes "uid (action_from a) \<notin> uid ` set (pending (component w))"
  shows "pending (component (choose_action a w)) = pending (component w) \<and>
         turnList (combat_machine (choose_action a w)) = turnList (combat_machine w) \<and>
         current (combat_machine (choose_action a w)) = current (combat_machine w) \<and>
         playerChoices (combat_machine (choose_action a w))
           = (playerChoices (combat_machine w))(uid (action_from a) \<mapsto> a) \<and>
         currentState (combat_machine (choose_action a w))
           = (if pending (component w) = [] then ''begin-turn''
              else currentState (combat_machine w))"
proof -
  have "filter (\<lambda>p. uid (action_from a) \<noteq> uid p) (pending (component w)) = pending (component w)"
    using assms by (auto simp: filter_id_conv)
  then show ?thesis
    by (simp add: choose_action_state choose_action_pending choose_action_choices choose_action_turns)
qed

text \<open>
  C1 as stated fails in scenario B: after Warrior's attack is submitted, Warrior is no
  longer pending, yet a second submission replaces the recorded choice.
\<close>

theorem double_submission_counterexample:
  "uid (action_from (guard Warrior))
      \<notin> uid ` set (pending (component (choose_action (attack Warrior) arena_entered))) \<and>
   playerChoices (combat_machine (choose_action (attack Warrior) arena_entered)) ''p1''
      = Some (attack Warrior) \<and>
   playerChoices (combat_machine
        (choose_action (guard Warrior) (choose_action (attack Warrior) arena_entered))) ''p1''
      = Some (guard Warrior) \<and>
   attack Warrior \<noteq> guard Warrior"
  by (simp add: choose_action_pending choose_action_choices ex_defs)

text \<open>
  The second submission of scenario B leaves Mage pending and the machine choosing.
\<close>

theorem choose_not_pending_witness:
  "pending (component (choose_action (guard Warrior) (choose_action (attack Warrior) arena_entered)))
     = [Mage] \<and>
   currentState (combat_machine
        (choose_action (guard Warrior) (choose_action (attack Warrior) arena_entered)))
     = ''choose-action''"
proof -
  have h: "uid (action_from (guard Warrior))
      \<notin> uid ` set (pending (component (choose_action (attack Warrior) arena_entered)))"
    by (simp add: choose_action_pending ex_defs)
  show ?thesis
    using choose_not_pending_accepted [OF h]
    by (simp add: choose_action_pending choose_action_state ex_defs)
qed

text \<open>
  C4, as the code has it. \<open>enter\<close> pops the first entry of the shuffled turn order
  as the current combatant and sets the machine's \<open>currentDone\<close> flag to true.
\<close>

theorem enter_marks_current_done:
  assumes "enter shuffle w = Inr w'"
  shows "current (combat_machine w')
           = fst (shift (shuffle (getLiveParty (combat_machine w) @ getLiveEnemies (combat_machine w)))) \<and>
         turnList (combat_machine w')
           = snd (shift (shuffle (getLiveParty (combat_machine w) @ getLiveEnemies (combat_machine w)))) \<and>
         currentDone (combat_machine w') = True"
  by (simp add: enter_machine [OF assms])

theorem enter_marks_current_done_witness:
  "current (combat_machine arena_entered) = Some Goblin \<and>
   turnList (combat_machine arena_entered) = [Mage, Warrior] \<and>
   currentDone (combat_machine arena_entered) = True"
proof -
  have e: "enter rev arena = Inr arena_entered"
    by (rule enter_arena)
  show ?thesis
    using enter_marks_current_done [OF e]
    by (simp add: arena_entered_def)
qed

text \<open>
  C4 as stated fails: after \<open>enter\<close> the flag \<open>currentDone\<close> of the popped combatant
  is true, not false.
\<close>

theorem not_yet_processed_counterexample:
  "\<not> isl (enter rev arena) \<and>
   current (combat_machine (projr (enter rev arena))) = Some Goblin \<and>
   currentDone (combat_machine (projr (enter rev arena))) \<noteq> False"
proof -
  have e: "enter rev arena = Inr arena_entered"
    by (rule enter_arena)
  show ?thesis
    by (simp add: e) (simp add: arena_entered_def)
qed

lemma nextChoice_pop:
  assumes "choices w = p # rest" and "currentMachine (component w) = Some cm"
  shows "nextChoice w =
     Inr (w\<lparr>choices := rest,
            component := (component w)\<lparr>currentMachine :=
              Some (cm\<lparr>sm_current := Some p, sm_state := Some ''choose-action''\<rparr>)\<rparr>\<rparr>)"
  using assms by (simp add: nextChoice_def shift_def)

lemma nextChoice_inert:
  assumes "choices w = []"
  shows "nextChoice w = Inr (w\<lparr>component := (component w)\<lparr>currentMachine := None\<rparr>\<rparr>)"
  using assms by (simp add: nextChoice_def shift_def)

lemma chooseSubmit_relay:
  assumes "currentMachine (component w) = Some cm"
  shows "chooseSubmit a w = nextChoice (choose_action a w)"
  using assms by (simp add: chooseSubmit_def)

lemma choose_action_frame:
  "choices (choose_action a w) = choices w \<and>
   currentMachine (component (choose_action a w)) = currentMachine (component w)"
  by (simp add: choose_action_def Let_def)

lemma chooseSubmit_step:
  assumes cm: "currentMachine (component w) = Some cm"
  shows "\<exists>w1. chooseSubmit a w = Inr w1 \<and>
           pending (component w1) = filter (\<lambda>q. uid (action_from a) \<noteq> uid q) (pending (component w)) \<and>
           choices w1 = tl (choices w) \<and>
           currentMachine (component w1) =
             (case choices w of [] \<Rightarrow> None
              | p # rest \<Rightarrow> Some (cm\<lparr>sm_current := Some p, sm_state := Some ''choose-action''\<rparr>)) \<and>
           playerChoices (combat_machine w1) = (playerChoices (combat_machine w))(uid (action_from a) \<mapsto> a) \<and>
           turnList (combat_machine w1) = turnList (combat_machine w) \<and>
           current (combat_machine w1) = current (combat_machine w) \<and>
           currentState (combat_machine w1) =
             (if filter (\<lambda>q. uid (action_from a) \<noteq> uid q) (pending (component w)) = []
              then ''begin-turn'' else currentState (combat_machine w))"
  using cm
  by (cases "choices w")
     (simp_all add: chooseSubmit_def nextChoice_def choose_action_def shift_def Let_def
        setCurrentState_def)

lemma filter_head_distinct:
  assumes "distinct (map uid (p # ps))" and "k = uid p"
  shows "filter (\<lambda>q. k \<noteq> uid q) (p # ps) = ps"
proof -
  have "\<forall>q \<in> set ps. uid p \<noteq> uid q"
    using assms(1) by auto
  then have "filter (\<lambda>q. uid p \<noteq> uid q) ps = ps"
    by (simp add: filter_id_conv)
  then show ?thesis using assms(2) by simp
qed

lemma submitAll_round:
  assumes "distinct (map uid (p # ps))"
    and "map (\<lambda>a. uid (action_from a)) as = map uid (p # ps)"
    and "pending (component w) = p # ps"
    and "choices w = ps"
    and "currentMachine (component w) = Some cm"
  shows "\<exists>w'. submitAll as w = Inr w' \<and>
           currentMachine (component w') = None \<and>
           pending (component w') = [] \<and> choices w' = [] \<and>
           currentState (combat_machine w') = ''begin-turn'' \<and>
           turnList (combat_machine w') = turnList (combat_machine w) \<and>
           current (combat_machine w') = current (combat_machine w) \<and>
           (\<forall>k. playerChoices (combat_machine w') k =
                (if k \<in> set (map uid (p # ps)) then map_of (map (\<lambda>a. (uid (action_from a), a)) as) k
                 else playerChoices (combat_machine w) k))"
  using assms
proof (induction ps arbitrary: p as w cm)
  case Nil
  then obtain a where as: "as = [a]" and ua: "uid (action_from a) = uid p"
    by (cases as) auto
  from chooseSubmit_step [OF Nil.prems(5), of a] obtain w1 where
    w1: "chooseSubmit a w = Inr w1"
    and f: "pending (component w1) = filter (\<lambda>q. uid (action_from a) \<noteq> uid q) (pending (component w))"
      "choices w1 = tl (choices w)"
      "currentMachine (component w1) =
             (case choices w of [] \<Rightarrow> None
              | p # rest \<Rightarrow> Some (cm\<lparr>sm_current := Some p, sm_state := Some ''choose-action''\<rparr>))"
      "playerChoices (combat_machine w1) = (playerChoices (combat_machine w))(uid (action_from a) \<mapsto> a)"
      "turnList (combat_machine w1) = turnList (combat_machine w)"
      "current (combat_machine w1) = current (combat_machine w)"
      "currentState (combat_machine w1) =
             (if filter (\<lambda>q. uid (action_from a) \<noteq> uid q) (pending (component w)) = []
              then ''begin-turn'' else currentState (combat_machine w))"
    by blast
  show ?case
    using w1 f Nil.prems(3,4) ua by (simp add: as)
next
  case (Cons q qs)
  then obtain a as' where as: "as = a # as'" and ua: "uid (action_from a) = uid p"
    and rest: "map (\<lambda>a. uid (action_from a)) as' = map uid (q # qs)"
    by (cases as) auto
  from chooseSubmit_step [OF Cons.prems(5), of a] obtain w1 where
    w1: "chooseSubmit a w = Inr w1"
    and f: "pending (component w1) = filter (\<lambda>q. uid (action_from a) \<noteq> uid q) (pending (component w))"
      "choices w1 = tl (choices w)"
      "currentMachine (component w1) =
             (case choices w of [] \<Rightarrow> None
              | p # rest \<Rightarrow> Some (cm\<lparr>sm_current := Some p, sm_state := Some ''choose-action''\<rparr>))"
      "playerChoices (combat_machine w1) = (playerChoices (combat_machine w))(uid (action_from a) \<mapsto> a)"
      "turnList (combat_machine w1) = turnList (combat_machine w)"
      "current (combat_machine w1) = current (combat_machine w)"
    by blast
  have pend: "pending (component w1) = q # qs"
    using f(1) Cons.prems(1,3) ua filter_head_distinct [of p "q # qs" "uid (action_from a)"]
    by simp
  have ch: "choices w1 = qs"
    using f(2) Cons.prems(4) by simp
  have cm1: "currentMachine (component w1) = Some (cm\<lparr>sm_current := Some q, sm_state := Some ''choose-action''\<rparr>)"
    using f(3) Cons.prems(4) by simp
  have d: "distinct (map uid (q # qs))"
    using Cons.prems(1) by simp
  from Cons.IH [OF d rest pend ch cm1] obtain w' where
    r: "submitAll as' w1 = Inr w'"
      "currentMachine (component w') = None"
      "pending (component w') = []" "choices w' = []"
      "currentState (combat_machine w') = ''begin-turn''"
      "turnList (combat_machine w') = turnList (combat_machine w1)"
      "current (combat_machine w') = current (combat_machine w1)"
      "\<forall>k. playerChoices (combat_machine w') k =
                (if k \<in> set (map uid (q # qs)) then map_of (map (\<lambda>a. (uid (action_from a), a)) as') k
                 else playerChoices (combat_machine w1) k)"
    by blast
  have notin: "uid p \<notin> set (map uid (q # qs))"
    using Cons.prems(1) by auto
  have pc: "playerChoices (combat_machine w') k =
                (if k \<in> set (map uid (p # q # qs)) then map_of (map (\<lambda>a. (uid (action_from a), a)) as) k
                 else playerChoices (combat_machine w) k)" for k
    using r(8) notin f(4) ua by (auto simp: as)
  show ?case
    using w1 r(1-5) r(6) r(7) f(5,6) pc by (simp add: as)
qed

lemma enter_component:
  assumes "enter shuffle w = Inr w'"
  shows "pending (component w') = getLiveParty (combat_machine w) \<and>
         choices w' = tl (getLiveParty (combat_machine w)) \<and>
         (getLiveParty (combat_machine w) \<noteq> [] \<longrightarrow>
            (\<exists>cm. currentMachine (component w') = Some cm \<and>
                  sm_current cm = Some (hd (getLiveParty (combat_machine w))) \<and>
                  sm_players cm = getLiveParty (combat_machine w) \<and>
                  sm_enemies cm = getLiveEnemies (combat_machine w))) \<and>
         (getLiveParty (combat_machine w) = [] \<longrightarrow> currentMachine (component w') = None)"
  using assms
  by (cases "scene (combat_machine w)"; cases "filter isAlive (party (combat_machine w))")
     (auto simp: enter_def nextChoice_def Let_def shift_def getLiveParty_def getLiveEnemies_def)

text \<open>
  A whole round: after \<open>enter\<close>, with living party members of distinct uids, one
  submission per member in the order they are presented ends with the sub-machine
  dropped, nothing pending, the machine sent to \<open>begin-turn\<close>, the turn order
  untouched and exactly the members' choices recorded.
\<close>

lemma round_of_choices_completes:
  assumes e: "enter shuffle w = Inr w0"
    and live: "getLiveParty (combat_machine w) \<noteq> []"
    and d: "distinct (map uid (getLiveParty (combat_machine w)))"
    and as: "map (\<lambda>a. uid (action_from a)) as = map uid (getLiveParty (combat_machine w))"
  shows "\<exists>w'. submitAll as w0 = Inr w' \<and>
           currentMachine (component w') = None \<and>
           pending (component w') = [] \<and>
           currentState (combat_machine w') = ''begin-turn'' \<and>
           turnList (combat_machine w') = turnList (combat_machine w0) \<and>
           current (combat_machine w') = current (combat_machine w0) \<and>
           (\<forall>a \<in> set as. playerChoices (combat_machine w') (uid (action_from a)) = Some a) \<and>
           dom (playerChoices (combat_machine w')) = uid ` set (getLiveParty (combat_machine w))"
proof -
  obtain p ps where L: "getLiveParty (combat_machine w) = p # ps"
    using live by (cases "getLiveParty (combat_machine w)") auto
  from enter_component [OF e] L obtain cm where
    c: "pending (component w0) = p # ps" "choices w0 = ps" "currentMachine (component w0) = Some cm"
    by auto
  have pc0: "playerChoices (combat_machine w0) = Map.empty"
    by (simp add: enter_machine [OF e])
  have d': "distinct (map uid (p # ps))" using d L by simp
  have as': "map (\<lambda>a. uid (action_from a)) as = map uid (p # ps)" using as L by simp
  from submitAll_round [OF d' as' c] obtain w' where
    r: "submitAll as w0 = Inr w'"
      "currentMachine (component w') = None"
      "pending (component w') = []"
      "currentState (combat_machine w') = ''begin-turn''"
      "turnList (combat_machine w') = turnList (combat_machine w0)"
      "current (combat_machine w') = current (combat_machine w0)"
      "\<forall>k. playerChoices (combat_machine w') k =
                (if k \<in> set (map uid (p # ps)) then map_of (map (\<lambda>a. (uid (action_from a), a)) as) k
                 else playerChoices (combat_machine w0) k)"
    by blast
  let ?f = "\<lambda>a. uid (action_from a)"
  let ?m = "map_of (map (\<lambda>a. (uid (action_from a), a)) as)"
  have img: "?f ` set as = set (map uid (p # ps))"
  proof -
    have "?f ` set as = set (map ?f as)" by simp
    also have "\<dots> = set (map uid (p # ps))" by (simp only: as')
    finally show ?thesis .
  qed
  have dist_as: "distinct (map fst (map (\<lambda>a. (uid (action_from a), a)) as))"
  proof -
    have "map fst (map (\<lambda>a. (uid (action_from a), a)) as) = map ?f as"
      by (simp add: comp_def)
    then show ?thesis using d' by (simp only: as')
  qed
  have each: "playerChoices (combat_machine w') (uid (action_from a)) = Some a" if "a \<in> set as" for a
  proof -
    have "?f a \<in> ?f ` set as" using that by (rule imageI)
    then have mem: "?f a \<in> set (map uid (p # ps))" by (simp only: img)
    have "(?f a, a) \<in> set (map (\<lambda>a. (uid (action_from a), a)) as)"
      using that by (simp add: image_iff)
    with dist_as have "?m (?f a) = Some a"
      by (rule map_of_is_SomeI)
    moreover from r(7) have "playerChoices (combat_machine w') (?f a) =
        (if ?f a \<in> set (map uid (p # ps)) then ?m (?f a) else playerChoices (combat_machine w0) (?f a))"
      by (rule spec)
    ultimately show ?thesis using mem by (simp only: if_True)
  qed
  have domm: "dom ?m = set (map uid (p # ps))"
  proof -
    have "dom ?m = fst ` set (map (\<lambda>a. (uid (action_from a), a)) as)"
      by (rule dom_map_of_conv_image_fst)
    also have "\<dots> = ?f ` set as"
      by (simp add: image_image)
    finally show ?thesis by (simp only: img)
  qed
  have dm: "dom (playerChoices (combat_machine w')) = uid ` set (getLiveParty (combat_machine w))"
  proof -
    have eq: "playerChoices (combat_machine w') k =
        (if k \<in> set (map uid (p # ps)) then ?m k else None)" for k
      using r(7) by (simp only: pc0)
    have "(k \<in> dom (playerChoices (combat_machine w'))) = (k \<in> set (map uid (p # ps)))" for k
    proof (cases "k \<in> set (map uid (p # ps))")
      case True
      then have "k \<in> dom ?m" by (simp only: domm)
      then have "?m k \<noteq> None" by (simp add: domIff)
      then show ?thesis using True by (simp add: eq domIff)
    next
      case False
      then show ?thesis by (simp add: eq domIff)
    qed
    then have "dom (playerChoices (combat_machine w')) = set (map uid (p # ps))"
      by (rule set_eqI)
    also have "\<dots> = uid ` set (getLiveParty (combat_machine w))"
      by (simp only: L set_map)
    finally show ?thesis .
  qed
  have "submitAll as w0 = Inr w' \<and>
           currentMachine (component w') = None \<and>
           pending (component w') = [] \<and>
           currentState (combat_machine w') = ''begin-turn'' \<and>
           turnList (combat_machine w') = turnList (combat_machine w0) \<and>
           current (combat_machine w') = current (combat_machine w0) \<and>
           (\<forall>a \<in> set as. playerChoices (combat_machine w') (uid (action_from a)) = Some a) \<and>
           dom (playerChoices (combat_machine w')) = uid ` set (getLiveParty (combat_machine w))"
    using r(1-6) each dm by (intro conjI ballI)
  then show ?thesis by (rule exI)
qed

lemma enter_tracks:
  assumes "enter shuffle w = Inr w0"
  shows "queue_tracks_pending w0"
proof (cases "getLiveParty (combat_machine w)")
  case Nil
  with enter_component [OF assms] show ?thesis
    by (simp add: queue_tracks_pending_def)
next
  case (Cons p ps)
  with enter_component [OF assms] obtain cm where
    "currentMachine (component w0) = Some cm" "sm_current cm = Some p"
    "pending (component w0) = p # ps" "choices w0 = ps"
    by auto
  then show ?thesis
    by (simp add: queue_tracks_pending_def)
qed

lemma chooseSubmit_console:
  assumes "currentMachine (component w) = Some cm"
  shows "\<exists>w1. chooseSubmit a w = Inr w1 \<and>
           console w1 = console w @ [name (model (action_from a)) @ '' chose '' @ actionName a]"
  using assms
  by (cases "choices w")
     (simp_all add: chooseSubmit_def nextChoice_def choose_action_def shift_def Let_def)

lemma chooseSubmit_tracks:
  assumes t: "queue_tracks_pending w"
    and cm: "currentMachine (component w) = Some cm"
    and p: "sm_current cm = Some p"
    and d: "distinct (map uid (pending (component w)))"
    and a: "uid (action_from a) = uid p"
  shows "\<exists>w'. chooseSubmit a w = Inr w' \<and> queue_tracks_pending w' \<and>
           pending (component w') = choices w \<and>
           (currentMachine (component w') = None) = (choices w = []) \<and>
           currentState (combat_machine w') =
             (if choices w = [] then ''begin-turn'' else currentState (combat_machine w))"
proof -
  have pend: "pending (component w) = p # choices w"
    using t cm p by (simp add: queue_tracks_pending_def)
  have flt: "filter (\<lambda>q. uid (action_from a) \<noteq> uid q) (pending (component w)) = choices w"
    using filter_head_distinct [of p "choices w" "uid (action_from a)"] d a pend by simp
  from chooseSubmit_step [OF cm, of a] obtain w1 where
    w1: "chooseSubmit a w = Inr w1"
    and f: "pending (component w1) = filter (\<lambda>q. uid (action_from a) \<noteq> uid q) (pending (component w))"
      "choices w1 = tl (choices w)"
      "currentMachine (component w1) =
             (case choices w of [] \<Rightarrow> None
              | p # rest \<Rightarrow> Some (cm\<lparr>sm_current := Some p, sm_state := Some ''choose-action''\<rparr>))"
      "currentState (combat_machine w1) =
             (if filter (\<lambda>q. uid (action_from a) \<noteq> uid q) (pending (component w)) = []
              then ''begin-turn'' else currentState (combat_machine w))"
    by blast
  have tr: "queue_tracks_pending w1"
    using f(1-3) flt by (cases "choices w") (simp_all add: queue_tracks_pending_def)
  have nn: "(currentMachine (component w1) = None) = (choices w = [])"
    using f(3) by (cases "choices w") simp_all
  show ?thesis
    using w1 tr nn f(1,4) flt by simp
qed

text \<open>
  C5. An advance with a combatant left pops it and makes it the sub-machine's current
  one, in the selection state. An advance with none left drops the sub-machine: a
  further advance changes nothing and a further submit fails. A submit on a live
  sub-machine is the submission callback applied to the action, followed by an advance:
  the choice is recorded, the actor leaves the pending list, the line is logged,
  \<open>begin-turn\<close> is requested when nothing stays pending, and the queue is popped.
  The queue is the pending party: \<open>enter\<close> makes the pending list the living party,
  presents its head and queues its tail; a submit for the presented combatant presents
  the next pending one and drops the sub-machine exactly when none is left; one submit
  per living member, in order, ends the round with the sub-machine dropped, nothing
  pending and \<open>begin-turn\<close> requested.
\<close>

theorem submachine_advance_and_submit:
  "(choices w = p # rest \<and> currentMachine (component w) = Some cm \<longrightarrow>
      nextChoice w =
        Inr (w\<lparr>choices := rest,
               component := (component w)\<lparr>currentMachine :=
                 Some (cm\<lparr>sm_current := Some p, sm_state := Some ''choose-action''\<rparr>)\<rparr>\<rparr>)) \<and>
   (choices w = [] \<longrightarrow>
      (\<exists>w'. nextChoice w = Inr w' \<and> currentMachine (component w') = None \<and>
            w' = w\<lparr>component := (component w)\<lparr>currentMachine := None\<rparr>\<rparr> \<and>
            nextChoice w' = Inr w' \<and> chooseSubmit a w' = Inl TypeError)) \<and>
   (currentMachine (component w) = Some cm \<longrightarrow>
      chooseSubmit a w = nextChoice (choose_action a w) \<and>
      (\<exists>w'. chooseSubmit a w = Inr w' \<and>
            playerChoices (combat_machine w')
              = (playerChoices (combat_machine w))(uid (action_from a) \<mapsto> a) \<and>
            pending (component w')
              = filter (\<lambda>q. uid (action_from a) \<noteq> uid q) (pending (component w)) \<and>
            currentState (combat_machine w')
              = (if filter (\<lambda>q. uid (action_from a) \<noteq> uid q) (pending (component w)) = []
                 then ''begin-turn'' else currentState (combat_machine w)) \<and>
            console w'
              = console w @ [name (model (action_from a)) @ '' chose '' @ actionName a] \<and>
            turnList (combat_machine w') = turnList (combat_machine w) \<and>
            current (combat_machine w') = current (combat_machine w) \<and>
            choices w' = tl (choices w) \<and>
            currentMachine (component w')
              = (case choices w of [] \<Rightarrow> None
                 | q # qs \<Rightarrow>
                     Some (cm\<lparr>sm_current := Some q, sm_state := Some ''choose-action''\<rparr>)))) \<and>
   (enter shuffle w = Inr v \<longrightarrow>
      queue_tracks_pending v \<and>
      pending (component v) = getLiveParty (combat_machine w) \<and>
      choices v = tl (getLiveParty (combat_machine w))) \<and>
   (queue_tracks_pending w \<and> currentMachine (component w) = Some cm \<and>
    sm_current cm = Some p \<and> distinct (map uid (pending (component w))) \<and>
    uid (action_from a) = uid p \<longrightarrow>
      (\<exists>w'. chooseSubmit a w = Inr w' \<and> queue_tracks_pending w' \<and>
            pending (component w') = choices w \<and>
            (currentMachine (component w') = None) = (choices w = []) \<and>
            currentState (combat_machine w') =
              (if choices w = [] then ''begin-turn'' else currentState (combat_machine w)))) \<and>
   (enter shuffle w = Inr v \<and> getLiveParty (combat_machine w) \<noteq> [] \<and>
    distinct (map uid (getLiveParty (combat_machine w))) \<and>
    map (\<lambda>a. uid (action_from a)) as = map uid (getLiveParty (combat_machine w)) \<longrightarrow>
      (\<exists>w'. submitAll as v = Inr w' \<and>
            currentMachine (component w') = None \<and>
            pending (component w') = [] \<and>
            currentState (combat_machine w') = ''begin-turn'' \<and>
            turnList (combat_machine w') = turnList (combat_machine v) \<and>
            current (combat_machine w') = current (combat_machine v) \<and>
            (\<forall>a \<in> set as. playerChoices (combat_machine w') (uid (action_from a)) = Some a) \<and>
            dom (playerChoices (combat_machine w')) = uid ` set (getLiveParty (combat_machine w))))"
proof -
  have adv: "nextChoice w =
        Inr (w\<lparr>choices := rest,
               component := (component w)\<lparr>currentMachine :=
                 Some (cm\<lparr>sm_current := Some p, sm_state := Some ''choose-action''\<rparr>)\<rparr>\<rparr>)"
    if "choices w = p # rest \<and> currentMachine (component w) = Some cm"
    using that by (simp add: nextChoice_pop)
  have inert: "\<exists>w'. nextChoice w = Inr w' \<and> currentMachine (component w') = None \<and>
            w' = w\<lparr>component := (component w)\<lparr>currentMachine := None\<rparr>\<rparr> \<and>
            nextChoice w' = Inr w' \<and> chooseSubmit a w' = Inl TypeError"
    if "choices w = []"
    using that by (simp add: nextChoice_inert chooseSubmit_def)
  have relay: "chooseSubmit a w = nextChoice (choose_action a w) \<and>
      (\<exists>w'. chooseSubmit a w = Inr w' \<and>
            playerChoices (combat_machine w')
              = (playerChoices (combat_machine w))(uid (action_from a) \<mapsto> a) \<and>
            pending (component w')
              = filter (\<lambda>q. uid (action_from a) \<noteq> uid q) (pending (component w)) \<and>
            currentState (combat_machine w')
              = (if filter (\<lambda>q. uid (action_from a) \<noteq> uid q) (pending (component w)) = []
                 then ''begin-turn'' else currentState (combat_machine w)) \<and>
            console w'
              = console w @ [name (model (action_from a)) @ '' chose '' @ actionName a] \<and>
            turnList (combat_machine w') = turnList (combat_machine w) \<and>
            current (combat_machine w') = current (combat_machine w) \<and>
            choices w' = tl (choices w) \<and>
            currentMachine (component w')
              = (case choices w of [] \<Rightarrow> None
                 | q # qs \<Rightarrow>
                     Some (cm\<lparr>sm_current := Some q, sm_state := Some ''choose-action''\<rparr>)))"
    if cm: "currentMachine (component w) = Some cm"
  proof -
    have r: "chooseSubmit a w = nextChoice (choose_action a w)"
      using cm by (rule chooseSubmit_relay)
    from chooseSubmit_step [OF cm, of a] obtain w1 where
      w1: "chooseSubmit a w = Inr w1"
      and f: "pending (component w1) = filter (\<lambda>q. uid (action_from a) \<noteq> uid q) (pending (component w))"
        "choices w1 = tl (choices w)"
        "currentMachine (component w1) =
             (case choices w of [] \<Rightarrow> None
              | p # rest \<Rightarrow> Some (cm\<lparr>sm_current := Some p, sm_state := Some ''choose-action''\<rparr>))"
        "playerChoices (combat_machine w1) = (playerChoices (combat_machine w))(uid (action_from a) \<mapsto> a)"
        "turnList (combat_machine w1) = turnList (combat_machine w)"
        "current (combat_machine w1) = current (combat_machine w)"
        "currentState (combat_machine w1) =
             (if filter (\<lambda>q. uid (action_from a) \<noteq> uid q) (pending (component w)) = []
              then ''begin-turn'' else currentState (combat_machine w))"
      by blast
    from chooseSubmit_console [OF cm, of a] w1
    have c: "console w1 = console w @ [name (model (action_from a)) @ '' chose '' @ actionName a]"
      by simp
    have "\<exists>w'. chooseSubmit a w = Inr w' \<and>
            playerChoices (combat_machine w')
              = (playerChoices (combat_machine w))(uid (action_from a) \<mapsto> a) \<and>
            pending (component w')
              = filter (\<lambda>q. uid (action_from a) \<noteq> uid q) (pending (component w)) \<and>
            currentState (combat_machine w')
              = (if filter (\<lambda>q. uid (action_from a) \<noteq> uid q) (pending (component w)) = []
                 then ''begin-turn'' else currentState (combat_machine w)) \<and>
            console w'
              = console w @ [name (model (action_from a)) @ '' chose '' @ actionName a] \<and>
            turnList (combat_machine w') = turnList (combat_machine w) \<and>
            current (combat_machine w') = current (combat_machine w) \<and>
            choices w' = tl (choices w) \<and>
            currentMachine (component w')
              = (case choices w of [] \<Rightarrow> None
                 | q # qs \<Rightarrow>
                     Some (cm\<lparr>sm_current := Some q, sm_state := Some ''choose-action''\<rparr>))"
      using w1 f c by blast
    with r show ?thesis by (rule conjI)
  qed
  have ent: "queue_tracks_pending v \<and>
      pending (component v) = getLiveParty (combat_machine w) \<and>
      choices v = tl (getLiveParty (combat_machine w))"
    if e: "enter shuffle w = Inr v"
    using enter_tracks [OF e] enter_component [OF e] by blast
  have step: "\<exists>w'. chooseSubmit a w = Inr w' \<and> queue_tracks_pending w' \<and>
            pending (component w') = choices w \<and>
            (currentMachine (component w') = None) = (choices w = []) \<and>
            currentState (combat_machine w') =
              (if choices w = [] then ''begin-turn'' else currentState (combat_machine w))"
    if "queue_tracks_pending w \<and> currentMachine (component w) = Some cm \<and>
        sm_current cm = Some p \<and> distinct (map uid (pending (component w))) \<and>
        uid (action_from a) = uid p"
    using that chooseSubmit_tracks [of w cm p a] by blast
  have round: "\<exists>w'. submitAll as v = Inr w' \<and>
            currentMachine (component w') = None \<and>
            pending (component w') = [] \<and>
            currentState (combat_machine w') = ''begin-turn'' \<and>
            turnList (combat_machine w') = turnList (combat_machine v) \<and>
            current (combat_machine w') = current (combat_machine v) \<and>
            (\<forall>a \<in> set as. playerChoices (combat_machine w') (uid (action_from a)) = Some a) \<and>
            dom (playerChoices (combat_machine w')) = uid ` set (getLiveParty (combat_machine w))"
    if "enter shuffle w = Inr v \<and> getLiveParty (combat_machine w) \<noteq> [] \<and>
        distinct (map uid (getLiveParty (combat_machine w))) \<and>
        map (\<lambda>a. uid (action_from a)) as = map uid (getLiveParty (combat_machine w))"
    using that round_of_choices_completes [of shuffle w v as] by blast
  show ?thesis
    by (intro conjI; rule impI;
        (erule adv | erule inert | erule relay | erule ent | erule step | erule round))
qed

text \<open>
  In the example encounter: Warrior is presented and Mage queued; Warrior's submit is
  the callback followed by an advance and leaves Mage pending; both submits end the
  round.
\<close>

theorem submachine_witness:
  "nextChoice arena_entered \<noteq> Inl TypeError \<and>
   sm_current (the (currentMachine (component (projr (nextChoice arena_entered))))) = Some Mage \<and>
   chooseSubmit (attack Warrior) arena_entered
     = nextChoice (choose_action (attack Warrior) arena_entered) \<and>
   choices (projr (chooseSubmit (attack Warrior) arena_entered)) = [] \<and>
   pending (component (projr (chooseSubmit (attack Warrior) arena_entered))) = [Mage] \<and>
   queue_tracks_pending arena_entered \<and>
   currentMachine (component (projr (submitAll [attack Warrior, attack Mage] arena_entered))) = None \<and>
   currentState (combat_machine (projr (submitAll [attack Warrior, attack Mage] arena_entered)))
     = ''begin-turn''"
proof -
  have c: "choices arena_entered = [Mage]"
    by (simp add: arena_entered_def)
  obtain cm where cm: "currentMachine (component arena_entered) = Some cm"
    by (simp add: arena_entered_def)
  note inst = submachine_advance_and_submit
    [where w = arena_entered and p = Mage and rest = "[]" and cm = cm and a = "attack Warrior"]
  from inst c cm
  have n: "nextChoice arena_entered =
        Inr (arena_entered\<lparr>choices := [],
               component := (component arena_entered)\<lparr>currentMachine :=
                 Some (cm\<lparr>sm_current := Some Mage, sm_state := Some ''choose-action''\<rparr>)\<rparr>\<rparr>)"
    by blast
  have 1: "nextChoice arena_entered \<noteq> Inl TypeError"
    and 2: "sm_current (the (currentMachine (component (projr (nextChoice arena_entered))))) = Some Mage"
    by (simp_all add: n)
  from inst cm
  have 3: "chooseSubmit (attack Warrior) arena_entered
     = nextChoice (choose_action (attack Warrior) arena_entered)"
    by blast
  have s: "chooseSubmit (attack Warrior) arena_entered
      = Inr (projr (chooseSubmit (attack Warrior) arena_entered))"
    by (simp add: ex_defs chooseSubmit_def nextChoice_def choose_action_def shift_def Let_def)
  have 4: "choices (projr (chooseSubmit (attack Warrior) arena_entered)) = []"
    and 5: "pending (component (projr (chooseSubmit (attack Warrior) arena_entered))) = [Mage]"
    by (simp_all add: ex_defs chooseSubmit_def nextChoice_def choose_action_def shift_def Let_def)
  have 6: "queue_tracks_pending arena_entered"
    using submachine_advance_and_submit [where shuffle = rev and w = arena and v = arena_entered]
      enter_arena
    by blast
  have 7: "currentMachine (component (projr (submitAll [attack Warrior, attack Mage] arena_entered))) = None"
    and 8: "currentState (combat_machine (projr (submitAll [attack Warrior, attack Mage] arena_entered)))
     = ''begin-turn''"
    by (simp_all add: ex_defs chooseSubmit_def nextChoice_def choose_action_def shift_def Let_def
          setCurrentState_def)
  from 1 2 3 4 5 6 7 8 show ?thesis by blast
qed

text \<open>
  C8, as the code has it. While the sub-machine is live, pointing at an item whose source
  is an entity updates the pointer state (the pointed-at entity, the pointer offset, the
  direction class of the pointer element) and the sub-machine's target; the parent
  machine (turn order, choice map), the pending list, the unserved choices and the
  sub-machine's current combatant stay as they were. An item with any other source
  changes nothing.
\<close>

theorem pointAtItem_frame:
  "(source item = EntitySource e \<and> currentMachine (component w) = Some cm \<longrightarrow>
      pointAtItem item w =
        Inr (w\<lparr>component := (component w)
               \<lparr>pointAt := Some e,
                pointOffset := pointerOffset (component w),
                pointerClasses :=
                  addClass ''left''
                    (removeClass ''right'' (removeClass ''left'' (pointerClasses (component w)))),
                currentMachine := Some (cm\<lparr>sm_target := Some e\<rparr>)\<rparr>\<rparr>) \<and>
      (\<exists>w'. pointAtItem item w = Inr w' \<and>
            combat_machine w' = combat_machine w \<and>
            pending (component w') = pending (component w) \<and>
            choices w' = choices w \<and> console w' = console w \<and>
            pointAt (component w') = Some e \<and>
            (\<exists>cm'. currentMachine (component w') = Some cm' \<and> sm_target cm' = Some e \<and>
                   sm_current cm' = sm_current cm \<and> sm_state cm' = sm_state cm))) \<and>
   ((\<forall>e. source item \<noteq> EntitySource e) \<longrightarrow> pointAtItem item w = Inr w)"
proof -
  have ent: "pointAtItem item w =
        Inr (w\<lparr>component := (component w)
               \<lparr>pointAt := Some e,
                pointOffset := pointerOffset (component w),
                pointerClasses :=
                  addClass ''left''
                    (removeClass ''right'' (removeClass ''left'' (pointerClasses (component w)))),
                currentMachine := Some (cm\<lparr>sm_target := Some e\<rparr>)\<rparr>\<rparr>)"
    if "source item = EntitySource e \<and> currentMachine (component w) = Some cm"
    using that by (simp add: pointAtItem_def setPointerTarget_def Let_def)
  have other: "pointAtItem item w = Inr w" if "\<forall>e. source item \<noteq> EntitySource e"
    using that by (cases "source item") (simp_all add: pointAtItem_def)
  from ent other show ?thesis by simp
qed

theorem pointAtItem_witness:
  "pointOffset (component (projr (pointAtItem pointAtGoblin arena_entered))) = (0, 0) \<and>
   pointAt (component (projr (pointAtItem pointAtGoblin arena_entered))) = Some Goblin \<and>
   pending (component (projr (pointAtItem pointAtGoblin arena_entered))) = [Warrior, Mage] \<and>
   pointAtItem attackItem arena_entered = Inr arena_entered"
proof -
  obtain cm where cm: "currentMachine (component arena_entered) = Some cm"
    by (simp add: arena_entered_def)
  have s: "source pointAtGoblin = EntitySource Goblin"
    by (simp add: pointAtGoblin_def)
  have o: "\<forall>e. source attackItem \<noteq> EntitySource e"
    by (simp add: attackItem_def)
  from pointAtItem_frame [of pointAtGoblin Goblin arena_entered cm] s cm
  have "pointAtItem pointAtGoblin arena_entered =
        Inr (arena_entered\<lparr>component := (component arena_entered)
               \<lparr>pointAt := Some Goblin,
                pointOffset := pointerOffset (component arena_entered),
                pointerClasses :=
                  addClass ''left''
                    (removeClass ''right'' (removeClass ''left'' (pointerClasses (component arena_entered)))),
                currentMachine := Some (cm\<lparr>sm_target := Some Goblin\<rparr>)\<rparr>\<rparr>)"
    by blast
  then have "pointOffset (component (projr (pointAtItem pointAtGoblin arena_entered))) = (0, 0)"
    and "pointAt (component (projr (pointAtItem pointAtGoblin arena_entered))) = Some Goblin"
    and "pending (component (projr (pointAtItem pointAtGoblin arena_entered))) = [Warrior, Mage]"
    by (simp_all add: arena_entered_def)
  moreover from pointAtItem_frame [of attackItem Goblin arena_entered cm] o
  have "pointAtItem attackItem arena_entered = Inr arena_entered"
    by blast
  ultimately show ?thesis by blast
qed

text \<open>
  C8 as stated fails: pointing at the Goblin also resets the pointer offset and replaces
  the direction class of the pointer element.
\<close>

theorem pointAtItem_only_target_counterexample:
  "source pointAtGoblin = EntitySource Goblin \<and>
   \<not> isl (pointAtItem pointAtGoblin arena_entered) \<and>
   pointOffset (component arena_entered) = (4, 2) \<and>
   pointOffset (component (projr (pointAtItem pointAtGoblin arena_entered))) = (0, 0) \<and>
   pointerClasses (component arena_entered) = [''point-to-player'', ''right''] \<and>
   pointerClasses (component (projr (pointAtItem pointAtGoblin arena_entered)))
     = [''point-to-player'', ''left'']"
  by (simp add: pointAtItem_def setPointerTarget_def addClass_def removeClass_def Let_def
        pointAtGoblin_def arena_entered_def)

section \<open>Properties of the combat view\<close>

lemma applyDamage_damages:
  "damages (applyDamage wts now target v c) =
     damages c @
       [\<lparr>timeout = now + 5000, damage_value = \<bar>v\<bar>,
         classes = \<lparr>miss = (v = 0), heal = (v < 0)\<rparr>,
         position =
           (fst (wts (fst (point target) - fst (camera_point c),
                      snd (point target) - (snd (camera_point c) + 1.25)) (cameraScale c))
              + fst (canvasOffset c),
            snd (wts (fst (point target) - fst (camera_point c),
                      snd (point target) - (snd (camera_point c) + 1.25)) (cameraScale c))
              + snd (canvasOffset c))\<rparr>]"
  by (simp add: applyDamage_def Let_def)

lemma applyDamage_frame:
  "shaking (applyDamage wts now target v c) = shaking c \<and>
   notifications (applyDamage wts now target v c) = notifications c \<and>
   gate (applyDamage wts now target v c) = gate c \<and>
   initGameCalls (applyDamage wts now target v c) = initGameCalls c \<and>
   initGameWaiting (applyDamage wts now target v c) = initGameWaiting c"
  by (simp add: applyDamage_def Let_def)

lemma onCombatAttack_damages:
  "damages (onCombatAttack wts now data c) =
     damages (applyDamage wts now (defender data) (damage data) c)"
  by (simp add: onCombatAttack_def Let_def notify_show_def shake_def applyDamage_def)

lemma onCombatAttack_notifications:
  "notifications (onCombatAttack wts now data c) =
     notifications c @
       [\<lparr>message = attackMessage data, on_done = Resume (issued (gate c)), duration = None\<rparr>]"
  by (simp add: onCombatAttack_def Let_def notify_show_def shake_def applyDamage_def notifyWait_def)

lemma onCombatAttack_shaking:
  "shaking (onCombatAttack wts now data c) =
     (if 0 < damage data \<and> cls (defender data) = CombatPlayerComponent
      then shaking c @ [(''combatCanvas'', 0.3)] else shaking c)"
  by (simp add: onCombatAttack_def Let_def notify_show_def shake_def applyDamage_def)

lemma onCombatAttack_gate:
  "gate (onCombatAttack wts now data c) = snd (notifyWait (gate c))"
  by (simp add: onCombatAttack_def Let_def notify_show_def shake_def applyDamage_def)

text \<open>
  C9. For every effect value \<open>v\<close>, the damage record put on screen is classed a miss
  exactly when \<open>v = 0\<close> and a heal exactly when \<open>v < 0\<close>, and shows \<open>\<bar>v\<bar>\<close>. The
  attack handler puts on screen the record of the summary's damage and narrates: damage
  of \<open>v\<close> when \<open>v > 0\<close>, healing of \<open>\<bar>v\<bar>\<close> when \<open>v < 0\<close>, a miss when \<open>v = 0\<close>;
  the narration is the miss (the heal) message exactly when the record is classed so.
\<close>

theorem attack_report_classification:
  "miss (classes (last (damages (applyDamage wts now target v c)))) = (v = 0) \<and>
   heal (classes (last (damages (applyDamage wts now target v c)))) = (v < 0) \<and>
   damage_value (last (damages (applyDamage wts now target v c))) = \<bar>v\<bar> \<and>
   butlast (damages (applyDamage wts now target v c)) = damages c \<and>
   damages (onCombatAttack wts now data c)
     = damages (applyDamage wts now (defender data) (damage data) c) \<and>
   message (last (notifications (onCombatAttack wts now data c))) = attackMessage data \<and>
   (0 < damage data \<longrightarrow>
      attackMessage data =
        name (model (attacker data)) @ '' attacked '' @ name (model (defender data)) @
        '' for '' @ showNat (nat (damage data)) @ '' damage!'') \<and>
   (damage data < 0 \<longrightarrow>
      attackMessage data =
        name (model (attacker data)) @ '' healed '' @ name (model (defender data)) @
        '' for '' @ showNat (nat \<bar>damage data\<bar>) @ '' hit points'') \<and>
   (damage data = 0 \<longrightarrow>
      attackMessage data =
        name (model (attacker data)) @ '' attacked '' @ name (model (defender data)) @
        '', and MISSED!'') \<and>
   (attackMessage data =
        name (model (attacker data)) @ '' attacked '' @ name (model (defender data)) @
        '', and MISSED!'')
     = miss (classes (last (damages (onCombatAttack wts now data c)))) \<and>
   (attackMessage data =
        name (model (attacker data)) @ '' healed '' @ name (model (defender data)) @
        '' for '' @ showNat (nat \<bar>damage data\<bar>) @ '' hit points'')
     = heal (classes (last (damages (onCombatAttack wts now data c))))"
proof -
  have rec: "miss (classes (last (damages (applyDamage wts now target v c)))) = (v = 0) \<and>
    heal (classes (last (damages (applyDamage wts now target v c)))) = (v < 0) \<and>
    damage_value (last (damages (applyDamage wts now target v c))) = \<bar>v\<bar> \<and>
    butlast (damages (applyDamage wts now target v c)) = damages c"
    for target v
    by (simp add: applyDamage_damages)
  have pos: "attackMessage data =
        name (model (attacker data)) @ '' attacked '' @ name (model (defender data)) @
        '' for '' @ showNat (nat (damage data)) @ '' damage!''"
    if "0 < damage data"
    using that by (simp add: attackMessage_def showInt_def Let_def)
  have neg: "attackMessage data =
        name (model (attacker data)) @ '' healed '' @ name (model (defender data)) @
        '' for '' @ showNat (nat \<bar>damage data\<bar>) @ '' hit points''"
    if "damage data < 0"
    using that by (simp add: attackMessage_def showInt_def Let_def)
  have zero: "attackMessage data =
        name (model (attacker data)) @ '' attacked '' @ name (model (defender data)) @
        '', and MISSED!''"
    if "damage data = 0"
    using that by (simp add: attackMessage_def Let_def)
  have only: "(attackMessage data =
        name (model (attacker data)) @ '' attacked '' @ name (model (defender data)) @
        '', and MISSED!'') = (damage data = 0)"
    by (simp add: attackMessage_def Let_def)
  have only_heal: "(attackMessage data =
        name (model (attacker data)) @ '' healed '' @ name (model (defender data)) @
        '' for '' @ showNat (nat \<bar>damage data\<bar>) @ '' hit points'') = (damage data < 0)"
    by (simp add: attackMessage_def showInt_def Let_def)
  have msg: "message (last (notifications (onCombatAttack wts now data c))) = attackMessage data"
    by (simp add: onCombatAttack_notifications)
  show ?thesis
    using rec [of target v] rec [of "defender data" "damage data"] pos neg zero only only_heal msg
    by (simp add: onCombatAttack_damages)
qed

text \<open>
  A hit for 3, a heal for 12 and a miss, as narrated and as recorded.
\<close>

theorem attack_report_witness:
  "attackMessage goblinHitsWarrior = ''Goblin attacked Warrior for 3 damage!'' \<and>
   attackMessage mageHealsWarrior = ''Mage healed Warrior for 12 hit points'' \<and>
   attackMessage (goblinHitsWarrior\<lparr>damage := 0\<rparr>) = ''Goblin attacked Warrior, and MISSED!'' \<and>
   heal (classes (last (damages (applyDamage tileToScreen 1000 Warrior (- 12) idleView)))) \<and>
   damage_value (last (damages (applyDamage tileToScreen 1000 Warrior (- 12) idleView))) = 12"
proof -
  have n3: "showNat (nat 3) = ''3''" and n12: "showNat (nat 12) = ''12''"
    by (simp_all add: showNat.simps)
  have d: "0 < damage goblinHitsWarrior" "damage mageHealsWarrior < 0"
      "damage (goblinHitsWarrior\<lparr>damage := 0\<rparr>) = 0"
    by (simp_all add: goblinHitsWarrior_def mageHealsWarrior_def)
  have 1: "attackMessage goblinHitsWarrior = ''Goblin attacked Warrior for 3 damage!''"
    using attack_report_classification [of tileToScreen 1000 Warrior "- 12" idleView goblinHitsWarrior] d(1) n3
    by (simp add: goblinHitsWarrior_def Goblin_def Warrior_def)
  have 2: "attackMessage mageHealsWarrior = ''Mage healed Warrior for 12 hit points''"
    using attack_report_classification [of tileToScreen 1000 Warrior "- 12" idleView mageHealsWarrior] d(2) n12
    by (simp add: mageHealsWarrior_def Mage_def Warrior_def)
  have 3: "attackMessage (goblinHitsWarrior\<lparr>damage := 0\<rparr>) = ''Goblin attacked Warrior, and MISSED!''"
    using attack_report_classification [of tileToScreen 1000 Warrior "- 12" idleView "goblinHitsWarrior\<lparr>damage := 0\<rparr>"] d(3)
    by (simp add: goblinHitsWarrior_def Goblin_def Warrior_def)
  have 4: "heal (classes (last (damages (applyDamage tileToScreen 1000 Warrior (- 12) idleView))))"
    and 5: "damage_value (last (damages (applyDamage tileToScreen 1000 Warrior (- 12) idleView))) = 12"
    using attack_report_classification [of tileToScreen 1000 Warrior "- 12" idleView goblinHitsWarrior]
    by simp_all
  from 1 2 3 4 5 show ?thesis by blast
qed

text \<open>
  C10. Handling an attack starts a shake (of the canvas, once) exactly when the damage is
  strictly positive and the defender is a \<open>CombatPlayerComponent\<close>; the handlers of
  the other events never shake.
\<close>

theorem shake_iff_party_damaged:
  "(shaking (onCombatAttack wts now data c) \<noteq> shaking c)
      = (0 < damage data \<and> cls (defender data) = CombatPlayerComponent) \<and>
   shaking (onCombatAttack wts now data c)
      = (if 0 < damage data \<and> cls (defender data) = CombatPlayerComponent
         then shaking c @ [(''combatCanvas'', 0.3)] else shaking c) \<and>
   shaking (onCombatRun run c) = shaking c \<and>
   shaking (onCombatDefeat c) = shaking c"
  by (simp add: onCombatAttack_shaking onCombatRun_def onCombatDefeat_def notify_show_def Let_def)

text \<open>
  A hit on the Warrior shakes; a hit on the Goblin, a heal and a miss do not.
\<close>

theorem shake_witness:
  "shaking (onCombatAttack tileToScreen 1000 goblinHitsWarrior idleView) = [(''combatCanvas'', 0.3)] \<and>
   shaking (onCombatAttack tileToScreen 1000 warriorHitsGoblin idleView) = [] \<and>
   shaking (onCombatAttack tileToScreen 1000 mageHealsWarrior idleView) = [] \<and>
   shaking (onCombatAttack tileToScreen 1000 (goblinHitsWarrior\<lparr>damage := 0\<rparr>) idleView) = []"
proof -
  have s: "shaking idleView = []" by (simp add: idleView_def)
  show ?thesis
    using shake_iff_party_damaged [of tileToScreen 1000 goblinHitsWarrior idleView]
      shake_iff_party_damaged [of tileToScreen 1000 warriorHitsGoblin idleView]
      shake_iff_party_damaged [of tileToScreen 1000 mageHealsWarrior idleView]
      shake_iff_party_damaged [of tileToScreen 1000 "goblinHitsWarrior\<lparr>damage := 0\<rparr>" idleView]
    by (simp add: s goblinHitsWarrior_def warriorHitsGoblin_def mageHealsWarrior_def
          Warrior_def Goblin_def)
qed


lemma renderCombatEvent_gate:
  "gate (renderCombatEvent wts now ev c) = snd (notifyWait (gate c))"
  by (cases ev)
     (simp_all add: renderCombatEvent_def onCombatAttack_gate onCombatRun_def
        onCombatDefeat_def notify_show_def Let_def)

lemma renderCombatEvent_notifications:
  "\<exists>msg dur. notifications (renderCombatEvent wts now ev c) =
     notifications c @
       [\<lparr>message = msg,
         on_done = (if ev = CombatDefeat then InitGameThen (issued (gate c))
                    else Resume (issued (gate c))),
         duration = dur\<rparr>]"
  by (cases ev)
     (simp_all add: renderCombatEvent_def onCombatAttack_notifications onCombatRun_def
        onCombatDefeat_def notify_show_def notifyWait_def Let_def)

lemma renderCombatEvent_init:
  "initGameCalls (renderCombatEvent wts now ev c) = initGameCalls c \<and>
   initGameWaiting (renderCombatEvent wts now ev c) = initGameWaiting c"
  by (cases ev)
     (simp_all add: renderCombatEvent_def onCombatAttack_def onCombatRun_def
        onCombatDefeat_def notify_show_def shake_def applyDamage_def Let_def)

text \<open>
  C6. For every event and every view, the handler takes exactly one token from the gate
  (the next one; it joins the outstanding tokens) and hands it to exactly one new
  notification, as the token itself or, for defeat, chained to the reinitialization;
  the handler itself calls no reinitialization. From then on the machine may not
  proceed, and invoking any other token does not change that; invoking the token
  removes it, and invoking it a second time changes nothing. On a view with nothing
  else outstanding, the machine may proceed exactly when this token has been invoked,
  which acknowledging the message does (for defeat: once the reinitialization it
  starts is fulfilled).
\<close>

theorem one_token_per_event:
  "issued (gate (renderCombatEvent wts now ev c)) = issued (gate c) + 1 \<and>
   outstanding (gate (renderCombatEvent wts now ev c)) = outstanding (gate c) @ [issued (gate c)] \<and>
   \<not> mayProceed (gate (renderCombatEvent wts now ev c)) \<and>
   (\<exists>msg dur. notifications (renderCombatEvent wts now ev c) =
      notifications c @
        [\<lparr>message = msg,
          on_done = (if ev = CombatDefeat then InitGameThen (issued (gate c))
                     else Resume (issued (gate c))),
          duration = dur\<rparr>]) \<and>
   initGameCalls (renderCombatEvent wts now ev c) = initGameCalls c \<and>
   initGameWaiting (renderCombatEvent wts now ev c) = initGameWaiting c \<and>
   (\<forall>t. t \<noteq> issued (gate c) \<longrightarrow>
        \<not> mayProceed (invokeToken t (gate (renderCombatEvent wts now ev c)))) \<and>
   outstanding (invokeToken (issued (gate c)) (gate (renderCombatEvent wts now ev c)))
     = removeAll (issued (gate c)) (outstanding (gate c)) \<and>
   invokeToken (issued (gate c))
       (invokeToken (issued (gate c)) (gate (renderCombatEvent wts now ev c)))
     = invokeToken (issued (gate c)) (gate (renderCombatEvent wts now ev c)) \<and>
   (outstanding (gate c) = [] \<longrightarrow>
      (\<forall>t. mayProceed (invokeToken t (gate (renderCombatEvent wts now ev c)))
             = (t = issued (gate c)))) \<and>
   (outstanding (gate c) = [] \<and> notifications c = [] \<and> initGameWaiting c = [] \<longrightarrow>
      mayProceed (gate (acknowledge (renderCombatEvent wts now ev c))) = (ev \<noteq> CombatDefeat) \<and>
      mayProceed (gate (initGameFulfilled (acknowledge (renderCombatEvent wts now ev c)))))"
proof -
  let ?c' = "renderCombatEvent wts now ev c"
  have g: "gate ?c' =
      (gate c)\<lparr>issued := issued (gate c) + 1, outstanding := outstanding (gate c) @ [issued (gate c)]\<rparr>"
    by (simp add: renderCombatEvent_gate notifyWait_def)
  from renderCombatEvent_notifications [of wts now ev c]
  obtain msg dur where n: "notifications ?c' =
      notifications c @
       [\<lparr>message = msg,
         on_done = (if ev = CombatDefeat then InitGameThen (issued (gate c))
                    else Resume (issued (gate c))),
         duration = dur\<rparr>]"
    by blast
  have 1: "issued (gate ?c') = issued (gate c) + 1" by (simp add: g)
  have 2: "outstanding (gate ?c') = outstanding (gate c) @ [issued (gate c)]" by (simp add: g)
  have 3: "\<not> mayProceed (gate ?c')" by (simp add: g mayProceed_def)
  have 4: "\<exists>msg dur. notifications ?c' =
      notifications c @
        [\<lparr>message = msg,
          on_done = (if ev = CombatDefeat then InitGameThen (issued (gate c))
                     else Resume (issued (gate c))),
          duration = dur\<rparr>]"
    by (rule renderCombatEvent_notifications)
  have 5: "initGameCalls ?c' = initGameCalls c" and 6: "initGameWaiting ?c' = initGameWaiting c"
    by (simp_all add: renderCombatEvent_init)
  have 7: "\<not> mayProceed (invokeToken t (gate ?c'))" if "t \<noteq> issued (gate c)" for t
    using that by (auto simp: g mayProceed_def invokeToken_def)
  have 8: "outstanding (invokeToken (issued (gate c)) (gate ?c'))
     = removeAll (issued (gate c)) (outstanding (gate c))"
    by (simp add: g invokeToken_def)
  have 9: "invokeToken (issued (gate c)) (invokeToken (issued (gate c)) (gate ?c'))
     = invokeToken (issued (gate c)) (gate ?c')"
    by (simp add: g invokeToken_def)
  have 10: "mayProceed (invokeToken t (gate ?c')) = (t = issued (gate c))"
    if "outstanding (gate c) = []" for t
    using that by (simp add: g mayProceed_def invokeToken_def)
  have 11: "mayProceed (gate (acknowledge ?c')) = (ev \<noteq> CombatDefeat) \<and>
      mayProceed (gate (initGameFulfilled (acknowledge ?c')))"
    if h: "outstanding (gate c) = [] \<and> notifications c = [] \<and> initGameWaiting c = []"
  proof -
    define d where "d = renderCombatEvent wts now ev c"
    have n': "notifications d =
       [\<lparr>message = msg,
         on_done = (if ev = CombatDefeat then InitGameThen (issued (gate c))
                    else Resume (issued (gate c))),
         duration = dur\<rparr>]"
      using n h by (simp add: d_def)
    have g': "gate d = (gate c)\<lparr>issued := issued (gate c) + 1, outstanding := [issued (gate c)]\<rparr>"
      using g h by (simp add: d_def)
    have w: "initGameWaiting d = []" using 6 h by (simp add: d_def)
    have "mayProceed (gate (acknowledge d)) = (ev \<noteq> CombatDefeat)"
      by (simp add: acknowledge_def n' runCallback_def g' mayProceed_def invokeToken_def)
    moreover have "mayProceed (gate (initGameFulfilled (acknowledge d)))"
      by (simp add: acknowledge_def n' runCallback_def initGameFulfilled_def w g' mayProceed_def
            invokeToken_def)
    ultimately show ?thesis unfolding d_def by blast
  qed
  from 1 2 3 4 5 6 7 8 9 10 11 show ?thesis by blast
qed

text \<open>
  A failed escape: one token outstanding after the handler, still one after another
  token is invoked, none after the message is acknowledged.
\<close>

theorem one_token_witness:
  "outstanding (gate (renderCombatEvent tileToScreen 1000 (CombatRun warriorFlees) idleView)) = [0] \<and>
   \<not> mayProceed (gate (renderCombatEvent tileToScreen 1000 (CombatRun warriorFlees) idleView)) \<and>
   \<not> mayProceed (invokeToken 7 (gate (renderCombatEvent tileToScreen 1000 (CombatRun warriorFlees) idleView))) \<and>
   mayProceed (gate (acknowledge (renderCombatEvent tileToScreen 1000 (CombatRun warriorFlees) idleView)))"
proof -
  have h: "outstanding (gate idleView) = []" "notifications idleView = []"
      "initGameWaiting idleView = []" "issued (gate idleView) = 0"
    by (simp_all add: idleView_def)
  have t: "(7::nat) \<noteq> issued (gate idleView)"
    by (simp add: idleView_def)
  show ?thesis
    using one_token_per_event [of tileToScreen 1000 "CombatRun warriorFlees" idleView] h t
    by (simp del: One_nat_def)
qed



end
